theory Spec2Isabelle
  imports Complex_Main "HOL-Library.Word"
begin

unbundle bit_operations_syntax

section \<open>Data of mcintegration.cpp\<close>

text \<open>
  \<^verbatim>\<open>size_t\<close> and \<^verbatim>\<open>unsigned long\<close> are 64-bit words (LP64). A \<^verbatim>\<open>double\<close> is
  read as the real number it stands for: rounding, infinities and NaN are outside this
  development. An \<^verbatim>\<open>int\<close> thread number is an \<open>int\<close>.
\<close>

type_synonym size_t = "64 word"
type_synonym ulong = "64 word"

text \<open>\<^verbatim>\<open>struct parameters { double p; double q; };\<close>\<close>

record parameters =
  p :: real
  q :: real

text \<open>
  What a call can end in other than a normal return. The first four are the failure
  kinds of the interface description; the source has no statement that raises any of
  them, and no equation below produces one. The last three are what the C++ can run
  into: an integer division by zero, an index or a reference outside the caller's or the
  call's arrays, and a library call that does not come back (the library's error handler
  ends the process).
\<close>

datatype failure =
    InvalidDimension | InvalidDomain | NoWorkers | WorkerFailure
  | DivisionByZero | OutOfBounds | NoReturn

section \<open>The integrand\<close>

text \<open>
  \<^verbatim>\<open>double f(double x, double y, double z, const parameters* par)
  { return (x + y + z)*par->p + (x*x + y*y + z*z)*par->q; }\<close>
\<close>

definition f :: "real \<Rightarrow> real \<Rightarrow> real \<Rightarrow> parameters \<Rightarrow> real" where
  "f x y z par = (x + y + z) * p par + (x * x + y * y + z * z) * q par"

text \<open>
  \<^verbatim>\<open>k[i]\<close> on a point array of \<open>length k\<close> doubles: a read past the end is undefined
  behaviour in C++, here \<open>None\<close>.
\<close>

definition rd :: "real list \<Rightarrow> nat \<Rightarrow> real option" where
  "rd k i = (if i < length k then Some (k ! i) else None)"

text \<open>
  \<^verbatim>\<open>double integrand(double* k, size_t dim, void* params)\<close>: \<^verbatim>\<open>dim\<close> is cast to void,
  the three reads \<^verbatim>\<open>k[0]\<close>, \<^verbatim>\<open>k[1]\<close>, \<^verbatim>\<open>k[2]\<close> happen in this order.
\<close>

definition integrand :: "real list \<Rightarrow> size_t \<Rightarrow> parameters \<Rightarrow> real option" where
  "integrand k d params =
     (case rd k 0 of
        None \<Rightarrow> None
      | Some x \<Rightarrow>
          (case rd k 1 of
             None \<Rightarrow> None
           | Some y \<Rightarrow>
               (case rd k 2 of
                  None \<Rightarrow> None
                | Some z \<Rightarrow> Some (f x y z params))))"

section \<open>Seeds\<close>

text \<open>
  \<^verbatim>\<open>unsigned long seed = chrono::high_resolution_clock::now().time_since_epoch().count()
       ^ static_cast<unsigned long>(thread_id + 0x9e3779b97f4a7c15ULL);\<close>
  \<open>now\<close> is the clock's count converted to \<^verbatim>\<open>unsigned long\<close>; the \<^verbatim>\<open>int\<close> thread
  number is converted to \<^verbatim>\<open>unsigned long long\<close> (modulo \<open>2 ^ 64\<close>) before the wrapping
  addition.
\<close>

definition seed :: "ulong \<Rightarrow> int \<Rightarrow> ulong" where
  "seed now thread_id = now XOR (of_int thread_id + 0x9e3779b97f4a7c15)"

section \<open>The caller's objects\<close>

text \<open>
  The caller's objects that \<^verbatim>\<open>parallel_monte_carlo_integration\<close> reaches through its
  pointer and reference parameters: the two bound arrays, the parameter record, and two
  doubles of the caller's own, as \<^verbatim>\<open>res\<close> and \<^verbatim>\<open>err\<close> are in \<^verbatim>\<open>main\<close>.
\<close>

record caller =
  xl :: "real list"
  xu :: "real list"
  par :: parameters
  result :: real
  error :: real

text \<open>
  \<^verbatim>\<open>double& result, double& error\<close>: the caller binds each reference to a double of
  its choice. \<^verbatim>\<open>main\<close> binds them to \<^verbatim>\<open>res\<close> and \<^verbatim>\<open>err\<close> (\<open>Res\<close>, \<open>Err\<close>); nothing
  in the signature keeps a caller from binding one to a component of a bound array or to
  a field of the parameter record, as in
  \<^verbatim>\<open>parallel_monte_carlo_integration(N_MC, xl, xu, Dim, xl[0], err, par)\<close>.
  A reference is bound to a double that exists; a write through it changes that double.
\<close>

datatype place = Res | Err | Xl nat | Xu nat | ParP | ParQ

fun bound :: "place \<Rightarrow> caller \<Rightarrow> bool" where
  "bound Res st = True"
| "bound Err st = True"
| "bound (Xl i) st = (i < length (xl st))"
| "bound (Xu i) st = (i < length (xu st))"
| "bound ParP st = True"
| "bound ParQ st = True"

fun put :: "place \<Rightarrow> real \<Rightarrow> caller \<Rightarrow> caller" where
  "put Res v st = st\<lparr>result := v\<rparr>"
| "put Err v st = st\<lparr>error := v\<rparr>"
| "put (Xl i) v st = st\<lparr>xl := (xl st)[i := v]\<rparr>"
| "put (Xu i) v st = st\<lparr>xu := (xu st)[i := v]\<rparr>"
| "put ParP v st = st\<lparr>par := (par st)\<lparr>p := v\<rparr>\<rparr>"
| "put ParQ v st = st\<lparr>par := (par st)\<lparr>q := v\<rparr>\<rparr>"

definition assign :: "place \<Rightarrow> real \<Rightarrow> caller \<Rightarrow> failure + caller" where
  "assign r v st = (if bound r st then Inr (put r v st) else Inl OutOfBounds)"

section \<open>The sampler call\<close>

text \<open>
  The arguments of one \<^verbatim>\<open>gsl_monte_vegas_integrate(&G, xl, xu, dim, calls / num_threads,
  rng, state, &results[thread_id], &errors[thread_id])\<close>: the generator as seeded by
  \<^verbatim>\<open>gsl_rng_set(rng, seed)\<close>, \<^verbatim>\<open>G = { &integrand, dim, &par }\<close>, the bounds, the
  dimension (also that of the state from \<^verbatim>\<open>gsl_monte_vegas_alloc(dim)\<close>) and the budget.
  The bounds and the parameters are what the pointers point to when the call is made.
\<close>

record vegas_call =
  rng_seed :: ulong
  G_dim :: size_t
  G_params :: parameters
  xl_arg :: "real list"
  xu_arg :: "real list"
  dim_arg :: size_t
  calls_arg :: size_t

text \<open>
  What a sampler call that returns leaves behind: the two output slots, and the bound
  arrays and the parameter record, which the library reaches through the writable
  pointers \<^verbatim>\<open>xl\<close>, \<^verbatim>\<open>xu\<close> and \<^verbatim>\<open>&par\<close>.
\<close>

record vegas_return =
  result_out :: real
  abserr_out :: real
  xl_out :: "real list"
  xu_out :: "real list"
  params_out :: parameters

text \<open>
  GSL is not part of the repository: the sampler is a parameter. Given the arguments and
  the present contents of the two output slots, a call either returns (\<open>Some\<close>; a call
  that writes nothing gives the contents back) or does not return (\<open>None\<close>). Its \<^verbatim>\<open>int\<close>
  status is dropped by the source and is not modelled. The clock is a parameter too: the
  reading each thread takes.
\<close>

type_synonym sampler = "vegas_call \<Rightarrow> real \<times> real \<Rightarrow> vegas_return option"
type_synonym clock = "int \<Rightarrow> ulong"

definition vegas_args :: "clock \<Rightarrow> size_t \<Rightarrow> size_t \<Rightarrow> size_t \<Rightarrow> caller \<Rightarrow> int \<Rightarrow> vegas_call" where
  "vegas_args now num_threads calls d st thread_id =
     \<lparr> rng_seed = seed (now thread_id) thread_id,
       G_dim = d, G_params = par st,
       xl_arg = xl st, xu_arg = xu st, dim_arg = d,
       calls_arg = calls div num_threads \<rparr>"

section \<open>The parallel region\<close>

text \<open>
  The state of the region: the caller's objects, the two vectors \<^verbatim>\<open>results\<close> and
  \<^verbatim>\<open>errors\<close> of the call, and the sampler calls made so far. The last is kept to say
  which calls were made; nothing reads it.
\<close>

record region =
  objects :: caller
  results :: "real list"
  errors :: "real list"
  issued :: "vegas_call list"

text \<open>
  The body of the parallel region for one thread. \<^verbatim>\<open>calls / num_threads\<close> divides
  \<^verbatim>\<open>size_t\<close> values, which is undefined for a zero divisor; \<^verbatim>\<open>results[thread_id]\<close>
  and \<^verbatim>\<open>errors[thread_id]\<close> are the slots the library writes through, and must lie
  inside the two vectors.
\<close>

definition thread_body ::
  "clock \<Rightarrow> sampler \<Rightarrow> size_t \<Rightarrow> size_t \<Rightarrow> size_t \<Rightarrow> int \<Rightarrow> region \<Rightarrow> failure + region" where
  "thread_body now vegas num_threads calls d thread_id rg =
     (if num_threads = 0 then Inl DivisionByZero
      else if thread_id < 0 \<or> length (results rg) \<le> nat thread_id
              \<or> length (errors rg) \<le> nat thread_id then Inl OutOfBounds
      else let c = vegas_args now num_threads calls d (objects rg) thread_id
           in case vegas c (results rg ! nat thread_id, errors rg ! nat thread_id) of
                None \<Rightarrow> Inl NoReturn
              | Some ret \<Rightarrow>
                  Inr \<lparr> objects = (objects rg)\<lparr>xl := xl_out ret, xu := xu_out ret,
                                              par := params_out ret\<rparr>,
                        results = (results rg)[nat thread_id := result_out ret],
                        errors = (errors rg)[nat thread_id := abserr_out ret],
                        issued = issued rg @ [c] \<rparr>)"

text \<open>
  \<^verbatim>\<open>#pragma omp parallel\<close> has no \<^verbatim>\<open>num_threads\<close> clause: the runtime picks the size of
  the team. The thread that meets the region is thread 0 of it; \<open>helpers\<close> is the number
  of threads the runtime adds, so the team has the threads \<open>0, \<dots>, helpers\<close>.
  \<^verbatim>\<open>omp_get_max_threads()\<close> is an upper bound of the team's size, not the size.
  Each thread has its own generator and state and writes its own two slots; the threads
  are run here one after the other.
\<close>

definition team :: "nat \<Rightarrow> int list" where
  "team helpers = map int [0..<Suc helpers]"

fun parallel_region ::
  "(int \<Rightarrow> 's \<Rightarrow> failure + 's) \<Rightarrow> int list \<Rightarrow> 's \<Rightarrow> failure + 's" where
  "parallel_region body [] slots = Inr slots"
| "parallel_region body (t # ts) slots =
     (case body t slots of
        Inl e \<Rightarrow> Inl e
      | Inr slots' \<Rightarrow> parallel_region body ts slots')"

text \<open>
  Lines 75 to 104: \<^verbatim>\<open>num_threads = omp_get_max_threads()\<close>, the two vectors of
  \<^verbatim>\<open>num_threads\<close> zeros, and the region.
\<close>

definition run_region ::
  "clock \<Rightarrow> sampler \<Rightarrow> size_t \<Rightarrow> nat \<Rightarrow> size_t \<Rightarrow> size_t \<Rightarrow> caller \<Rightarrow> failure + region" where
  "run_region now vegas num_threads helpers calls d st =
     parallel_region (thread_body now vegas num_threads calls d) (team helpers)
       \<lparr> objects = st,
         results = replicate (unat num_threads) 0,
         errors = replicate (unat num_threads) 0,
         issued = [] \<rparr>"

section \<open>Combining the workers' results\<close>

text \<open>\<^verbatim>\<open>accumulate(first, last, init)\<close>: the left fold with \<^verbatim>\<open>+\<close>.\<close>

definition accumulate :: "real list \<Rightarrow> real \<Rightarrow> real" where
  "accumulate xs init = foldl (+) init xs"

text \<open>\<^verbatim>\<open>for (double err_i : errors) sum_sq_errors += err_i * err_i;\<close>\<close>

definition sum_sq_errors :: "real list \<Rightarrow> real" where
  "sum_sq_errors es = foldl (\<lambda>s err_i. s + err_i * err_i) 0 es"

text \<open>
  \<^verbatim>\<open>void parallel_monte_carlo_integration(size_t calls, double xl[], double xu[],
  size_t dim, double& result, double& error, parameters& par)\<close>. The first four
  arguments here are the environment: the clock, the library's sampler, the value of
  \<^verbatim>\<open>omp_get_max_threads()\<close> stored in \<^verbatim>\<open>num_threads\<close>, and the number of threads the
  runtime adds to the team. \<open>result_ref\<close> and \<open>error_ref\<close> are what the two references
  are bound to.

  After the region, \<^verbatim>\<open>result = accumulate(...) / num_threads\<close> and
  \<^verbatim>\<open>error = sqrt(sum_sq_errors) / num_threads\<close> divide doubles by \<^verbatim>\<open>num_threads\<close>
  converted to double. They are reached only when the region has ended, and then
  \<^verbatim>\<open>num_threads\<close> is not zero (lemma \<open>region_ends_num_threads\<close> below): thread 0 has
  divided \<^verbatim>\<open>calls\<close> by it.
\<close>

definition parallel_monte_carlo_integration ::
  "clock \<Rightarrow> sampler \<Rightarrow> size_t \<Rightarrow> nat \<Rightarrow> size_t \<Rightarrow> size_t \<Rightarrow> place \<Rightarrow> place \<Rightarrow> caller
    \<Rightarrow> failure + caller" where
  "parallel_monte_carlo_integration now vegas num_threads helpers calls d result_ref error_ref st =
     (case run_region now vegas num_threads helpers calls d st of
        Inl e \<Rightarrow> Inl e
      | Inr rg \<Rightarrow>
          (case assign result_ref (accumulate (results rg) 0 / real (unat num_threads))
                  (objects rg) of
             Inl e \<Rightarrow> Inl e
           | Inr st' \<Rightarrow>
               assign error_ref (sqrt (sum_sq_errors (errors rg)) / real (unat num_threads))
                 st'))"

section \<open>The constants and the call of main\<close>

definition Dim :: size_t where "Dim = 3"
definition N_MC :: size_t where "N_MC = 10000000"
definition Lower_bounds :: "real list" where "Lower_bounds = [0, 0, 0]"
definition Upper_bounds :: "real list" where "Upper_bounds = [1, 1, 1]"

text \<open>
  \<^verbatim>\<open>double res = 0.0; double err = 0.0; parameters par = {0.1, 0.1};\<close> and the two
  global bound arrays.
\<close>

definition main_objects :: caller where
  "main_objects =
     \<lparr> xl = Lower_bounds, xu = Upper_bounds, par = \<lparr> p = 1 / 10, q = 1 / 10 \<rparr>,
       result = 0, error = 0 \<rparr>"

text \<open>\<^verbatim>\<open>parallel_monte_carlo_integration(N_MC, xl, xu, Dim, res, err, par);\<close>\<close>

definition main_call :: "clock \<Rightarrow> sampler \<Rightarrow> size_t \<Rightarrow> nat \<Rightarrow> failure + caller" where
  "main_call now vegas num_threads helpers =
     parallel_monte_carlo_integration now vegas num_threads helpers N_MC Dim Res Err main_objects"

section \<open>Stand-ins for the environment, for evaluation at concrete inputs\<close>

text \<open>A clock that ticks once per thread number, from 1000.\<close>

definition ticking :: clock where
  "ticking thread_id = 1000 + of_int thread_id"

text \<open>
  A clock in nanoseconds since 1970: thread 0 reads 1700000000000000000, every other
  thread reads three nanoseconds later.
\<close>

definition skewed :: clock where
  "skewed thread_id = (if thread_id = 0 then 1700000000000000000 else 1700000000000000003)"

text \<open>
  A stand-in for the library's sampler. It first checks the box, refusing one with
  \<open>xu[i] \<le> xl[i]\<close> for some \<open>i < dim\<close> by not returning (GSL's check of its
  arguments, under the default error handler, which the source leaves in place). Its
  estimate is one evaluation of the integrand at a point of the box picked by the low
  two bits of the seed, times the box's volume, over the first \<open>dim\<close> components; the
  error it reports is the volume's absolute value. It does not return when the integrand
  reads outside its point, and it writes nothing but its two output slots.
\<close>

definition box_point :: "vegas_call \<Rightarrow> real list" where
  "box_point c =
     map (\<lambda>i. xl_arg c ! i + (xu_arg c ! i - xl_arg c ! i) * (real (unat (rng_seed c AND 3)) + 1) / 5)
       [0..<unat (dim_arg c)]"

definition box_volume :: "vegas_call \<Rightarrow> real" where
  "box_volume c = prod_list (map (\<lambda>i. xu_arg c ! i - xl_arg c ! i) [0..<unat (dim_arg c)])"

definition refusing :: sampler where
  "refusing c slots =
     (if list_ex (\<lambda>i. xu_arg c ! i \<le> xl_arg c ! i) [0..<unat (dim_arg c)] then None
      else case integrand (box_point c) (G_dim c) (G_params c) of
             None \<Rightarrow> None
           | Some y \<Rightarrow>
               Some \<lparr> result_out = box_volume c * y, abserr_out = \<bar>box_volume c\<bar>,
                      xl_out = xl_arg c, xu_out = xu_arg c, params_out = G_params c \<rparr>)"

text \<open>
  A sampler leaves its inputs alone when every call of it that returns leaves the bound
  arrays and the parameter record as it found them.
\<close>

definition leaves_inputs :: "sampler \<Rightarrow> bool" where
  "leaves_inputs vegas \<longleftrightarrow>
     (\<forall>c slots ret. vegas c slots = Some ret \<longrightarrow>
        xl_out ret = xl_arg c \<and> xu_out ret = xu_arg c \<and> params_out ret = G_params c)"


definition wide_objects :: caller where
  "wide_objects = main_objects\<lparr>xl := [0, 0, 0, 0], xu := [1, 1, 1, 1]\<rparr>"

section \<open>Midpoint sums of the integrand over the unit cube\<close>

text \<open>
  The cube \<open>[0, 1]\<^sup>3\<close> cut into \<open>n\<^sup>3\<close> equal cells: the midpoints of the \<open>n\<close> intervals
  of one axis, and the mean of \<open>f\<close> over the cells' midpoints (the midpoint Riemann sum of
  the integral, the cube having volume 1).
\<close>

definition midpoint :: "nat \<Rightarrow> nat \<Rightarrow> real" where
  "midpoint n i = (real i + 1 / 2) / real n"

definition midpoint_sum :: "nat \<Rightarrow> parameters \<Rightarrow> real" where
  "midpoint_sum n params =
     (\<Sum>i<n. \<Sum>j<n. \<Sum>k<n. f (midpoint n i) (midpoint n j) (midpoint n k) params) / real n ^ 3"

section \<open>The fold of the two combination loops\<close>

lemma foldl_plus_sum_list: "foldl (+) a xs = a + sum_list (xs :: real list)"
  by (induction xs arbitrary: a) simp_all

lemma accumulate_sum_list: "accumulate xs 0 = sum_list xs"
  by (simp add: accumulate_def foldl_plus_sum_list)

lemma foldl_squares: "foldl (\<lambda>s e. s + e * e) a es = a + (\<Sum>e\<leftarrow>es. e * e :: real)"
  by (induction es arbitrary: a) simp_all

lemma sum_sq_errors_sum_list: "sum_sq_errors es = (\<Sum>e\<leftarrow>es. e * e)"
  by (simp add: sum_sq_errors_def foldl_squares)

section \<open>What the parallel region leaves\<close>

text \<open>One thread's step, when it ends.\<close>

lemma thread_body_Inr:
  assumes "thread_body now vegas num_threads calls d t rg = Inr rg'"
  obtains ret where
    "num_threads \<noteq> 0" "0 \<le> t" "nat t < length (results rg)" "nat t < length (errors rg)"
    "vegas (vegas_args now num_threads calls d (objects rg) t)
       (results rg ! nat t, errors rg ! nat t) = Some ret"
    "rg' = \<lparr> objects = (objects rg)\<lparr>xl := xl_out ret, xu := xu_out ret, par := params_out ret\<rparr>,
             results = (results rg)[nat t := result_out ret],
             errors = (errors rg)[nat t := abserr_out ret],
             issued = issued rg @ [vegas_args now num_threads calls d (objects rg) t] \<rparr>"
  using assms
  by (auto simp: thread_body_def Let_def split: if_splits option.splits)

text \<open>
  After the threads \<open>0, \<dots>, k - 1\<close>: both vectors still have \<open>num_threads\<close> entries;
  \<open>k\<close> sampler calls were made, the \<open>i\<close>-th by thread \<open>i\<close> with its seed, the dimension,
  and the budget \<^verbatim>\<open>calls / num_threads\<close>; it found its slots zeroed, returned, and its
  two outputs are in slot \<open>i\<close>; every later slot still holds the 0.0 it was allocated with.
\<close>

lemma region_step:
  assumes inv: "length (results rg) = n" "length (errors rg) = n" "length (issued rg) = k"
      "\<forall>i<k. \<exists>ret. vegas (issued rg ! i) (0, 0) = Some ret
          \<and> results rg ! i = result_out ret \<and> errors rg ! i = abserr_out ret
          \<and> calls_arg (issued rg ! i) = calls div num_threads
          \<and> dim_arg (issued rg ! i) = d
          \<and> rng_seed (issued rg ! i) = seed (now (int i)) (int i)"
      "\<forall>i. k \<le> i \<and> i < n \<longrightarrow> results rg ! i = 0 \<and> errors rg ! i = 0"
    and step: "thread_body now vegas num_threads calls d (int k) rg = Inr rg'"
  shows "length (results rg') = n \<and> length (errors rg') = n \<and> length (issued rg') = Suc k
    \<and> k < n
    \<and> (\<forall>i<Suc k. \<exists>ret. vegas (issued rg' ! i) (0, 0) = Some ret
          \<and> results rg' ! i = result_out ret \<and> errors rg' ! i = abserr_out ret
          \<and> calls_arg (issued rg' ! i) = calls div num_threads
          \<and> dim_arg (issued rg' ! i) = d
          \<and> rng_seed (issued rg' ! i) = seed (now (int i)) (int i))
    \<and> (\<forall>i. Suc k \<le> i \<and> i < n \<longrightarrow> results rg' ! i = 0 \<and> errors rg' ! i = 0)"
proof -
  from step obtain ret where
    kn: "nat (int k) < length (results rg)"
    and ret: "vegas (vegas_args now num_threads calls d (objects rg) (int k))
       (results rg ! nat (int k), errors rg ! nat (int k)) = Some ret"
    and rg': "rg' = \<lparr> objects = (objects rg)\<lparr>xl := xl_out ret, xu := xu_out ret, par := params_out ret\<rparr>,
             results = (results rg)[nat (int k) := result_out ret],
             errors = (errors rg)[nat (int k) := abserr_out ret],
             issued = issued rg @ [vegas_args now num_threads calls d (objects rg) (int k)] \<rparr>"
    by (rule thread_body_Inr)
  from kn inv(1) have k: "k < n" by simp
  with inv(5) have zero: "results rg ! k = 0" "errors rg ! k = 0" by simp_all
  let ?c = "vegas_args now num_threads calls d (objects rg) (int k)"
  from ret zero have ret0: "vegas ?c (0, 0) = Some ret" by simp
  have old: "\<exists>ret. vegas (issued rg' ! i) (0, 0) = Some ret
          \<and> results rg' ! i = result_out ret \<and> errors rg' ! i = abserr_out ret
          \<and> calls_arg (issued rg' ! i) = calls div num_threads
          \<and> dim_arg (issued rg' ! i) = d
          \<and> rng_seed (issued rg' ! i) = seed (now (int i)) (int i)" if "i < k" for i
    using that inv(3,4) by (simp add: rg' nth_append)
  have new: "vegas (issued rg' ! k) (0, 0) = Some ret
          \<and> results rg' ! k = result_out ret \<and> errors rg' ! k = abserr_out ret
          \<and> calls_arg (issued rg' ! k) = calls div num_threads
          \<and> dim_arg (issued rg' ! k) = d
          \<and> rng_seed (issued rg' ! k) = seed (now (int k)) (int k)"
    using k inv(1,2,3) ret0 by (simp add: rg' nth_append vegas_args_def)
  have filled: "\<forall>i<Suc k. \<exists>ret. vegas (issued rg' ! i) (0, 0) = Some ret
          \<and> results rg' ! i = result_out ret \<and> errors rg' ! i = abserr_out ret
          \<and> calls_arg (issued rg' ! i) = calls div num_threads
          \<and> dim_arg (issued rg' ! i) = d
          \<and> rng_seed (issued rg' ! i) = seed (now (int i)) (int i)"
  proof (intro allI impI)
    fix i assume "i < Suc k"
    then consider "i < k" | "i = k" by linarith
    then show "\<exists>ret. vegas (issued rg' ! i) (0, 0) = Some ret
          \<and> results rg' ! i = result_out ret \<and> errors rg' ! i = abserr_out ret
          \<and> calls_arg (issued rg' ! i) = calls div num_threads
          \<and> dim_arg (issued rg' ! i) = d
          \<and> rng_seed (issued rg' ! i) = seed (now (int i)) (int i)"
    proof cases
      case 1 then show ?thesis by (rule old)
    next
      case 2 with new show ?thesis by blast
    qed
  qed
  have rest: "\<forall>i. Suc k \<le> i \<and> i < n \<longrightarrow> results rg' ! i = 0 \<and> errors rg' ! i = 0"
    using inv(5) by (simp add: rg')
  show ?thesis
    using inv(1,2,3) k filled rest by (simp add: rg')
qed

lemma region_threads:
  assumes "parallel_region (thread_body now vegas num_threads calls d) (map int [k..<m]) rg = Inr rg'"
    and "k \<le> m"
    and "length (results rg) = n" "length (errors rg) = n" "length (issued rg) = k"
      "\<forall>i<k. \<exists>ret. vegas (issued rg ! i) (0, 0) = Some ret
          \<and> results rg ! i = result_out ret \<and> errors rg ! i = abserr_out ret
          \<and> calls_arg (issued rg ! i) = calls div num_threads
          \<and> dim_arg (issued rg ! i) = d
          \<and> rng_seed (issued rg ! i) = seed (now (int i)) (int i)"
      "\<forall>i. k \<le> i \<and> i < n \<longrightarrow> results rg ! i = 0 \<and> errors rg ! i = 0"
  shows "length (results rg') = n \<and> length (errors rg') = n \<and> length (issued rg') = m
    \<and> (k < m \<longrightarrow> m \<le> n)
    \<and> (\<forall>i<m. \<exists>ret. vegas (issued rg' ! i) (0, 0) = Some ret
          \<and> results rg' ! i = result_out ret \<and> errors rg' ! i = abserr_out ret
          \<and> calls_arg (issued rg' ! i) = calls div num_threads
          \<and> dim_arg (issued rg' ! i) = d
          \<and> rng_seed (issued rg' ! i) = seed (now (int i)) (int i))
    \<and> (\<forall>i. m \<le> i \<and> i < n \<longrightarrow> results rg' ! i = 0 \<and> errors rg' ! i = 0)"
  using assms
proof (induction "m - k" arbitrary: k rg)
  case 0
  then have "k = m" by simp
  with 0 show ?case by simp
next
  case (Suc j)
  then have km: "k < m" by simp
  then have upt: "[k..<m] = k # [Suc k..<m]" by (simp add: upt_conv_Cons)
  from Suc.prems(1) obtain rg1 where
    step: "thread_body now vegas num_threads calls d (int k) rg = Inr rg1"
    and rest: "parallel_region (thread_body now vegas num_threads calls d) (map int [Suc k..<m]) rg1
               = Inr rg'"
    by (auto simp: upt split: sum.splits)
  from region_step [OF Suc.prems(3-7) step]
  have inv1: "length (results rg1) = n" "length (errors rg1) = n" "length (issued rg1) = Suc k"
      "k < n"
      "\<forall>i<Suc k. \<exists>ret. vegas (issued rg1 ! i) (0, 0) = Some ret
          \<and> results rg1 ! i = result_out ret \<and> errors rg1 ! i = abserr_out ret
          \<and> calls_arg (issued rg1 ! i) = calls div num_threads
          \<and> dim_arg (issued rg1 ! i) = d
          \<and> rng_seed (issued rg1 ! i) = seed (now (int i)) (int i)"
      "\<forall>i. Suc k \<le> i \<and> i < n \<longrightarrow> results rg1 ! i = 0 \<and> errors rg1 ! i = 0"
    by simp_all
  have j: "j = m - Suc k" using Suc.hyps(2) by simp
  have le: "Suc k \<le> m" using km by simp
  from Suc.hyps(1) [OF j rest le inv1(1,2,3,5,6)]
  have res: "length (results rg') = n \<and> length (errors rg') = n \<and> length (issued rg') = m
    \<and> (Suc k < m \<longrightarrow> m \<le> n)
    \<and> (\<forall>i<m. \<exists>ret. vegas (issued rg' ! i) (0, 0) = Some ret
          \<and> results rg' ! i = result_out ret \<and> errors rg' ! i = abserr_out ret
          \<and> calls_arg (issued rg' ! i) = calls div num_threads
          \<and> dim_arg (issued rg' ! i) = d
          \<and> rng_seed (issued rg' ! i) = seed (now (int i)) (int i))
    \<and> (\<forall>i. m \<le> i \<and> i < n \<longrightarrow> results rg' ! i = 0 \<and> errors rg' ! i = 0)" .
  have "m \<le> n"
  proof (cases "Suc k < m")
    case True with res show ?thesis by simp
  next
    case False with km have "m = Suc k" by simp
    with inv1(4) show ?thesis by simp
  qed
  with res show ?case by simp
qed

lemma team_Cons: "team helpers = 0 # map int [Suc 0..<Suc helpers]"
  by (simp add: team_def upt_conv_Cons)

lemma region_ends_num_threads:
  assumes "run_region now vegas num_threads helpers calls d st = Inr rg"
  shows "num_threads \<noteq> 0"
  using assms
  by (auto simp: run_region_def team_Cons thread_body_def split: sum.splits if_splits)

text \<open>The region as a whole, when it ends: the team fits into the vectors.\<close>

lemma region_ends:
  assumes "run_region now vegas num_threads helpers calls d st = Inr rg"
  shows "length (results rg) = unat num_threads \<and> length (errors rg) = unat num_threads
    \<and> length (issued rg) = Suc helpers \<and> Suc helpers \<le> unat num_threads
    \<and> (\<forall>i<Suc helpers. \<exists>ret. vegas (issued rg ! i) (0, 0) = Some ret
          \<and> results rg ! i = result_out ret \<and> errors rg ! i = abserr_out ret
          \<and> calls_arg (issued rg ! i) = calls div num_threads
          \<and> dim_arg (issued rg ! i) = d
          \<and> rng_seed (issued rg ! i) = seed (now (int i)) (int i))
    \<and> (\<forall>i. Suc helpers \<le> i \<and> i < unat num_threads
          \<longrightarrow> results rg ! i = 0 \<and> errors rg ! i = 0)"
proof -
  let ?init = "\<lparr> objects = st, results = replicate (unat num_threads) (0::real),
                  errors = replicate (unat num_threads) (0::real), issued = [] \<rparr>"
  have run: "parallel_region (thread_body now vegas num_threads calls d)
               (map int [0..<Suc helpers]) ?init = Inr rg"
    using assms by (simp add: run_region_def team_def)
  have "length (results rg) = unat num_threads \<and> length (errors rg) = unat num_threads
    \<and> length (issued rg) = Suc helpers
    \<and> (0 < Suc helpers \<longrightarrow> Suc helpers \<le> unat num_threads)
    \<and> (\<forall>i<Suc helpers. \<exists>ret. vegas (issued rg ! i) (0, 0) = Some ret
          \<and> results rg ! i = result_out ret \<and> errors rg ! i = abserr_out ret
          \<and> calls_arg (issued rg ! i) = calls div num_threads
          \<and> dim_arg (issued rg ! i) = d
          \<and> rng_seed (issued rg ! i) = seed (now (int i)) (int i))
    \<and> (\<forall>i. Suc helpers \<le> i \<and> i < unat num_threads
          \<longrightarrow> results rg ! i = 0 \<and> errors rg ! i = 0)"
    by (rule region_threads [OF run]) simp_all
  then show ?thesis by simp
qed

text \<open>
  A sampler that leaves its inputs alone leaves the caller's objects as they were; no
  sampler reaches the caller's \<open>result\<close> and \<open>error\<close>.
\<close>

lemma region_objects:
  assumes "leaves_inputs vegas"
    and "parallel_region (thread_body now vegas num_threads calls d) ts rg = Inr rg'"
  shows "objects rg' = objects rg"
  using assms(2)
proof (induction ts arbitrary: rg)
  case Nil
  then show ?case by simp
next
  case (Cons t ts)
  from Cons.prems obtain rg1 where
    step: "thread_body now vegas num_threads calls d t rg = Inr rg1"
    and rest: "parallel_region (thread_body now vegas num_threads calls d) ts rg1 = Inr rg'"
    by (auto split: sum.splits)
  from step obtain ret where
    ret: "vegas (vegas_args now num_threads calls d (objects rg) t)
       (results rg ! nat t, errors rg ! nat t) = Some ret"
    and rg1: "rg1 = \<lparr> objects = (objects rg)\<lparr>xl := xl_out ret, xu := xu_out ret,
                                              par := params_out ret\<rparr>,
             results = (results rg)[nat t := result_out ret],
             errors = (errors rg)[nat t := abserr_out ret],
             issued = issued rg @ [vegas_args now num_threads calls d (objects rg) t] \<rparr>"
    by (rule thread_body_Inr)
  from assms(1) ret have "xl_out ret = xl (objects rg)" "xu_out ret = xu (objects rg)"
    "params_out ret = par (objects rg)"
    by (auto simp: leaves_inputs_def vegas_args_def)
  then have "objects rg1 = objects rg" by (simp add: rg1)
  with Cons.IH [OF rest] show ?case by simp
qed

lemma run_region_objects:
  assumes "leaves_inputs vegas"
    and "run_region now vegas num_threads helpers calls d st = Inr rg"
  shows "objects rg = st"
  using region_objects [OF assms(1) assms(2) [unfolded run_region_def]] by simp

text \<open>The only ways the call ends without returning.\<close>

lemma region_failure_kinds:
  "parallel_region (thread_body now vegas num_threads calls d) ts rg = Inl e
   \<Longrightarrow> e = DivisionByZero \<or> e = OutOfBounds \<or> e = NoReturn"
proof (induction ts arbitrary: rg)
  case Nil
  then show ?case by simp
next
  case (Cons t ts)
  show ?case
  proof (cases "thread_body now vegas num_threads calls d t rg")
    case (Inl e')
    with Cons.prems have "e' = e" by simp
    with Inl show ?thesis
      by (auto simp: thread_body_def Let_def split: if_splits option.splits)
  next
    case (Inr rg1)
    with Cons.prems
    have "parallel_region (thread_body now vegas num_threads calls d) ts rg1 = Inl e"
      by simp
    then show ?thesis by (rule Cons.IH)
  qed
qed

lemma integration_failure_kinds:
  assumes "parallel_monte_carlo_integration now vegas num_threads helpers calls d
             result_ref error_ref st = Inl e"
  shows "e = DivisionByZero \<or> e = OutOfBounds \<or> e = NoReturn"
proof (cases "run_region now vegas num_threads helpers calls d st")
  case (Inl e')
  with assms have "e' = e" by (simp add: parallel_monte_carlo_integration_def)
  with Inl show ?thesis by (auto simp: run_region_def dest: region_failure_kinds)
next
  case (Inr rg)
  with assms show ?thesis
    by (auto simp: parallel_monte_carlo_integration_def assign_def split: sum.splits if_splits)
qed


text \<open>
  With \<^verbatim>\<open>num_threads\<close> zero, thread 0 divides \<^verbatim>\<open>calls\<close> by zero. (The OpenMP runtime
  gives at least 1.)
\<close>

lemma zero_num_threads:
  "parallel_monte_carlo_integration now vegas 0 helpers calls d result_ref error_ref st
   = Inl DivisionByZero"
  by (simp add: parallel_monte_carlo_integration_def run_region_def team_Cons thread_body_def)

text \<open>When the region ends, the call writes the two combined values and returns.\<close>

lemma integration_returns:
  assumes "run_region now vegas num_threads helpers calls d st = Inr rg"
  shows "parallel_monte_carlo_integration now vegas num_threads helpers calls d Res Err st
         = Inr ((objects rg)\<lparr>result := sum_list (results rg) / real (unat num_threads),
                   error := sqrt (\<Sum>e\<leftarrow>errors rg. e * e) / real (unat num_threads)\<rparr>)"
  using assms
  by (simp add: parallel_monte_carlo_integration_def assign_def
      accumulate_sum_list sum_sq_errors_sum_list)

section \<open>Evaluation at the stand-ins\<close>

lemma upt3: "[0..<3] = [0, 1, 2]"
  by (simp add: upt_rec numeral_3_eq_3)

lemma replicate_2: "replicate 2 x = [x, x]"
  by (simp add: numeral_2_eq_2)

lemma replicate_3: "replicate 3 x = [x, x, x]"
  by (simp add: numeral_3_eq_3)


lemma team_1: "team (Suc 0) = [0, 1]"
  by (simp add: team_def upt_rec)

lemma team_2: "team 2 = [0, 1, 2]"
  by (simp add: team_def upt_rec numeral_2_eq_2)

lemma seed0: "seed (ticking 0) 0 AND 3 = 1"
  by (simp add: seed_def ticking_def)

lemma seed1: "seed (ticking 1) 1 AND 3 = 3"
  by (simp add: seed_def ticking_def)

lemma seed2: "seed (ticking 2) 2 AND 3 = 1"
  by (simp add: seed_def ticking_def)

lemma refusing_leaves_inputs: "leaves_inputs refusing"
  by (auto simp: leaves_inputs_def refusing_def split: if_splits option.splits)

lemma refusing_main_0:
  "refusing (vegas_args ticking W N_MC Dim main_objects 0) slots
   = Some \<lparr> result_out = 21 / 125, abserr_out = 1, xl_out = [0, 0, 0], xu_out = [1, 1, 1],
            params_out = \<lparr>p = 1 / 10, q = 1 / 10\<rparr> \<rparr>"
  by (simp add: refusing_def vegas_args_def box_point_def box_volume_def seed0 Dim_def
      main_objects_def Lower_bounds_def Upper_bounds_def upt3 integrand_def rd_def f_def)

lemma refusing_main_1:
  "refusing (vegas_args ticking W N_MC Dim main_objects 1) slots
   = Some \<lparr> result_out = 54 / 125, abserr_out = 1, xl_out = [0, 0, 0], xu_out = [1, 1, 1],
            params_out = \<lparr>p = 1 / 10, q = 1 / 10\<rparr> \<rparr>"
  by (simp add: refusing_def vegas_args_def box_point_def box_volume_def seed1 Dim_def
      main_objects_def Lower_bounds_def Upper_bounds_def upt3 integrand_def rd_def f_def)

lemma refusing_main_2:
  "refusing (vegas_args ticking W N_MC Dim main_objects 2) slots
   = Some \<lparr> result_out = 21 / 125, abserr_out = 1, xl_out = [0, 0, 0], xu_out = [1, 1, 1],
            params_out = \<lparr>p = 1 / 10, q = 1 / 10\<rparr> \<rparr>"
  by (simp add: refusing_def vegas_args_def box_point_def box_volume_def seed2 Dim_def
      main_objects_def Lower_bounds_def Upper_bounds_def upt3 integrand_def rd_def f_def)

lemma main_objects_same:
  "main_objects\<lparr>xl := [0, 0, 0], xu := [1, 1, 1], par := \<lparr>p = 1 / 10, q = 1 / 10\<rparr>\<rparr> = main_objects"
  by (simp add: main_objects_def Lower_bounds_def Upper_bounds_def)

text \<open>The region of \<^verbatim>\<open>main\<close>'s call with a full team of two.\<close>

lemma region_main_full:
  "run_region ticking refusing 2 1 N_MC Dim main_objects
   = Inr \<lparr> objects = main_objects, results = [21 / 125, 54 / 125], errors = [1, 1],
           issued = [vegas_args ticking 2 N_MC Dim main_objects 0,
                     vegas_args ticking 2 N_MC Dim main_objects 1] \<rparr>"
  by (simp add: run_region_def team_1 thread_body_def refusing_main_0 refusing_main_1
      main_objects_same replicate_2)


lemma region_three_full:
  "run_region ticking refusing 3 2 N_MC Dim main_objects
   = Inr \<lparr> objects = main_objects, results = [21 / 125, 54 / 125, 21 / 125], errors = [1, 1, 1],
           issued = [vegas_args ticking 3 N_MC Dim main_objects 0,
                     vegas_args ticking 3 N_MC Dim main_objects 1,
                     vegas_args ticking 3 N_MC Dim main_objects 2] \<rparr>"
  by (simp add: run_region_def team_2 thread_body_def refusing_main_0 refusing_main_1
      refusing_main_2 main_objects_same replicate_3)

lemma region_three_partial:
  "run_region ticking refusing 3 1 N_MC Dim main_objects
   = Inr \<lparr> objects = main_objects, results = [21 / 125, 54 / 125, 0], errors = [1, 1, 0],
           issued = [vegas_args ticking 3 N_MC Dim main_objects 0,
                     vegas_args ticking 3 N_MC Dim main_objects 1] \<rparr>"
  by (simp add: run_region_def team_1 thread_body_def refusing_main_0 refusing_main_1
      main_objects_same replicate_3)


lemma refusing_wide_0:
  "refusing (vegas_args ticking W N_MC Dim wide_objects 0) slots
   = Some \<lparr> result_out = 21 / 125, abserr_out = 1, xl_out = [0, 0, 0, 0], xu_out = [1, 1, 1, 1],
            params_out = \<lparr>p = 1 / 10, q = 1 / 10\<rparr> \<rparr>"
  by (simp add: refusing_def vegas_args_def box_point_def box_volume_def seed0 Dim_def
      wide_objects_def main_objects_def upt3 integrand_def rd_def f_def)

lemma refusing_wide_1:
  "refusing (vegas_args ticking W N_MC Dim wide_objects 1) slots
   = Some \<lparr> result_out = 54 / 125, abserr_out = 1, xl_out = [0, 0, 0, 0], xu_out = [1, 1, 1, 1],
            params_out = \<lparr>p = 1 / 10, q = 1 / 10\<rparr> \<rparr>"
  by (simp add: refusing_def vegas_args_def box_point_def box_volume_def seed1 Dim_def
      wide_objects_def main_objects_def upt3 integrand_def rd_def f_def)

lemma wide_objects_same:
  "wide_objects\<lparr>xl := [0, 0, 0, 0], xu := [1, 1, 1, 1], par := \<lparr>p = 1 / 10, q = 1 / 10\<rparr>\<rparr>
   = wide_objects"
  by (simp add: wide_objects_def main_objects_def)

lemma region_wide:
  "run_region ticking refusing 2 1 N_MC Dim wide_objects
   = Inr \<lparr> objects = wide_objects, results = [21 / 125, 54 / 125], errors = [1, 1],
           issued = [vegas_args ticking 2 N_MC Dim wide_objects 0,
                     vegas_args ticking 2 N_MC Dim wide_objects 1] \<rparr>"
  by (simp add: run_region_def team_1 thread_body_def refusing_wide_0 refusing_wide_1
      wide_objects_same replicate_2)

section \<open>The combination rule\<close>



section \<open>The budget of a worker\<close>

text \<open>
  C2. For every budget \<open>N\<close> and worker count \<open>W \<ge> 1\<close> (the value of \<^verbatim>\<open>num_threads\<close>), in
  a call that returns every thread of the team has made one sampler call, and each of
  these calls was given exactly \<open>N div W\<close> samples. The \<open>N mod W\<close> samples of the
  remainder go to no worker: the budgets handed out and the remainder do not exceed \<open>N\<close>,
  and add up to \<open>N\<close> when the team has \<open>W\<close> threads.
\<close>

theorem each_worker_gets_quotient:
  assumes "parallel_monte_carlo_integration now vegas num_threads helpers calls d
             result_ref error_ref st = Inr st'"
  shows "\<exists>rg. run_region now vegas num_threads helpers calls d st = Inr rg
    \<and> num_threads \<noteq> 0
    \<and> length (issued rg) = Suc helpers
    \<and> (\<forall>c \<in> set (issued rg). unat (calls_arg c) = unat calls div unat num_threads)
    \<and> (\<forall>i<Suc helpers. \<exists>ret. vegas (issued rg ! i) (0, 0) = Some ret
          \<and> results rg ! i = result_out ret \<and> errors rg ! i = abserr_out ret)
    \<and> (\<Sum>c\<leftarrow>issued rg. unat (calls_arg c)) + unat calls mod unat num_threads \<le> unat calls
    \<and> (Suc helpers = unat num_threads
        \<longrightarrow> (\<Sum>c\<leftarrow>issued rg. unat (calls_arg c)) + unat calls mod unat num_threads = unat calls)"
proof -
  from assms obtain rg where rg: "run_region now vegas num_threads helpers calls d st = Inr rg"
    by (auto simp: parallel_monte_carlo_integration_def split: sum.splits)
  note ends = region_ends [OF rg]
  let ?share = "unat calls div unat num_threads"
  have each: "unat (calls_arg c) = ?share" if "c \<in> set (issued rg)" for c
  proof -
    from that obtain i where "i < length (issued rg)" "c = issued rg ! i"
      by (auto simp: in_set_conv_nth)
    with ends have "calls_arg c = calls div num_threads" by auto
    then show ?thesis by (simp add: unat_div)
  qed
  then have "map (\<lambda>c. unat (calls_arg c)) (issued rg) = map (\<lambda>c. ?share) (issued rg)"
    by simp
  then have "(\<Sum>c\<leftarrow>issued rg. unat (calls_arg c)) = (\<Sum>c\<leftarrow>issued rg. ?share)"
    by (simp only:)
  also have "\<dots> = length (issued rg) * ?share"
    by (simp add: sum_list_triv)
  finally have total: "(\<Sum>c\<leftarrow>issued rg. unat (calls_arg c)) = Suc helpers * ?share"
    using ends by simp
  have "Suc helpers * ?share \<le> unat num_threads * ?share"
    using ends by (intro mult_le_mono1) simp
  also have "unat num_threads * ?share + unat calls mod unat num_threads = unat calls"
    by simp
  finally have le: "Suc helpers * ?share + unat calls mod unat num_threads \<le> unat calls"
    by simp
  have eq: "Suc helpers * ?share + unat calls mod unat num_threads = unat calls"
    if "Suc helpers = unat num_threads"
    using that by simp
  have filled: "\<forall>i<Suc helpers. \<exists>ret. vegas (issued rg ! i) (0, 0) = Some ret
          \<and> results rg ! i = result_out ret \<and> errors rg ! i = abserr_out ret"
  proof (intro allI impI)
    fix i assume "i < Suc helpers"
    with ends obtain ret where "vegas (issued rg ! i) (0, 0) = Some ret"
      "results rg ! i = result_out ret" "errors rg ! i = abserr_out ret"
      by blast
    then show "\<exists>ret. vegas (issued rg ! i) (0, 0) = Some ret
          \<and> results rg ! i = result_out ret \<and> errors rg ! i = abserr_out ret"
      by blast
  qed
  show ?thesis
  proof (intro exI [of _ rg] conjI)
    show "run_region now vegas num_threads helpers calls d st = Inr rg" by (rule rg)
    show "num_threads \<noteq> 0" using rg by (rule region_ends_num_threads)
    show "length (issued rg) = Suc helpers" using ends by simp
    show "\<forall>c \<in> set (issued rg). unat (calls_arg c) = unat calls div unat num_threads"
      using each by simp
    show "(\<Sum>c\<leftarrow>issued rg. unat (calls_arg c)) + unat calls mod unat num_threads \<le> unat calls"
      using le by (simp only: total)
    show "Suc helpers = unat num_threads
        \<longrightarrow> (\<Sum>c\<leftarrow>issued rg. unat (calls_arg c)) + unat calls mod unat num_threads = unat calls"
      using eq by (simp only: total) simp
  qed (rule filled)
qed

lemma main_full:
  "parallel_monte_carlo_integration ticking refusing 2 1 N_MC Dim Res Err main_objects
   = Inr (main_objects\<lparr>result := 3 / 10, error := sqrt 2 / 2\<rparr>)"
  using integration_returns [OF region_main_full] by simp

lemma three_full:
  "parallel_monte_carlo_integration ticking refusing 3 2 N_MC Dim Res Err main_objects
   = Inr (main_objects\<lparr>result := 32 / 125, error := sqrt 3 / 3\<rparr>)"
  using integration_returns [OF region_three_full] by simp

lemma three_partial:
  "parallel_monte_carlo_integration ticking refusing 3 1 N_MC Dim Res Err main_objects
   = Inr (main_objects\<lparr>result := 1 / 5, error := sqrt 2 / 3\<rparr>)"
  using integration_returns [OF region_three_partial] by simp

theorem each_worker_gets_quotient_witness:
  "parallel_monte_carlo_integration ticking refusing 3 2 N_MC Dim Res Err main_objects
     = Inr (main_objects\<lparr>result := 32 / 125, error := sqrt 3 / 3\<rparr>)
   \<and> run_region ticking refusing 3 2 N_MC Dim main_objects
     = Inr \<lparr> objects = main_objects, results = [21 / 125, 54 / 125, 21 / 125],
             errors = [1, 1, 1],
             issued = [vegas_args ticking 3 N_MC Dim main_objects 0,
                       vegas_args ticking 3 N_MC Dim main_objects 1,
                       vegas_args ticking 3 N_MC Dim main_objects 2] \<rparr>
   \<and> map (\<lambda>c. unat (calls_arg c))
       [vegas_args ticking 3 N_MC Dim main_objects 0,
        vegas_args ticking 3 N_MC Dim main_objects 1,
        vegas_args ticking 3 N_MC Dim main_objects 2]
     = [3333333, 3333333, 3333333]
   \<and> unat N_MC div unat (3 :: size_t) = 3333333 \<and> unat N_MC mod unat (3 :: size_t) = 1
   \<and> parallel_monte_carlo_integration ticking refusing 3 1 N_MC Dim Res Err main_objects
     = Inr (main_objects\<lparr>result := 1 / 5, error := sqrt 2 / 3\<rparr>)
   \<and> run_region ticking refusing 3 1 N_MC Dim main_objects
     = Inr \<lparr> objects = main_objects, results = [21 / 125, 54 / 125, 0], errors = [1, 1, 0],
             issued = [vegas_args ticking 3 N_MC Dim main_objects 0,
                       vegas_args ticking 3 N_MC Dim main_objects 1] \<rparr>"
  using each_worker_gets_quotient [OF three_full] each_worker_gets_quotient [OF three_partial]
    three_full three_partial region_three_full region_three_partial
  by (simp add: N_MC_def vegas_args_def)

section \<open>No check of the domain or of the dimension\<close>




text \<open>
  C5 (as amended). \<^verbatim>\<open>parallel_monte_carlo_integration\<close> never fails with
  InvalidDimension and does not compare \<open>dim\<close> with the bound arrays (it gets them as
  bare pointers): every sampler call made is given \<open>dim\<close> as the caller passed it, with
  \<open>xl\<close> and \<open>xu\<close> as the caller holds them, and when the sampler calls of the team
  return, the call returns the combined pair.
\<close>

theorem dimension_is_not_checked:
  "parallel_monte_carlo_integration now vegas num_threads helpers calls d result_ref error_ref st
     \<noteq> Inl InvalidDimension
   \<and> dim_arg (vegas_args now num_threads calls d st t) = d
   \<and> G_dim (vegas_args now num_threads calls d st t) = d
   \<and> xl_arg (vegas_args now num_threads calls d st t) = xl st
   \<and> xu_arg (vegas_args now num_threads calls d st t) = xu st
   \<and> (run_region now vegas num_threads helpers calls d st = Inr rg
      \<longrightarrow> (\<forall>i<Suc helpers. dim_arg (issued rg ! i) = d)
        \<and> parallel_monte_carlo_integration now vegas num_threads helpers calls d Res Err st
          = Inr ((objects rg)\<lparr>result := sum_list (results rg) / real (unat num_threads),
                    error := sqrt (\<Sum>e\<leftarrow>errors rg. e * e) / real (unat num_threads)\<rparr>))"
proof -
  have dims: "\<forall>i<Suc helpers. dim_arg (issued rg ! i) = d"
    if "run_region now vegas num_threads helpers calls d st = Inr rg"
    using region_ends [OF that] by blast
  show ?thesis
    using integration_failure_kinds
        [of now vegas num_threads helpers calls d result_ref error_ref st InvalidDimension]
      integration_returns [of now vegas num_threads helpers calls d st rg] dims
    by (auto simp: vegas_args_def)
qed

theorem dimension_is_not_checked_witness:
  "parallel_monte_carlo_integration ticking refusing 2 1 N_MC Dim Res Err wide_objects
     \<noteq> Inl InvalidDimension
   \<and> dim_arg (vegas_args ticking 2 N_MC Dim wide_objects 1) = 3
   \<and> G_dim (vegas_args ticking 2 N_MC Dim wide_objects 1) = 3
   \<and> xl_arg (vegas_args ticking 2 N_MC Dim wide_objects 1) = [0, 0, 0, 0]
   \<and> xu_arg (vegas_args ticking 2 N_MC Dim wide_objects 1) = [1, 1, 1, 1]
   \<and> run_region ticking refusing 2 1 N_MC Dim wide_objects
     = Inr \<lparr> objects = wide_objects, results = [21 / 125, 54 / 125], errors = [1, 1],
             issued = [vegas_args ticking 2 N_MC Dim wide_objects 0,
                       vegas_args ticking 2 N_MC Dim wide_objects 1] \<rparr>
   \<and> parallel_monte_carlo_integration ticking refusing 2 1 N_MC Dim Res Err wide_objects
     = Inr (wide_objects\<lparr>result := 3 / 10, error := sqrt 2 / 2\<rparr>)"
  using dimension_is_not_checked [of ticking refusing 2 1 N_MC Dim Res Err wide_objects 1
      "\<lparr> objects = wide_objects, results = [21 / 125, 54 / 125], errors = [1, 1],
         issued = [vegas_args ticking 2 N_MC Dim wide_objects 0,
                   vegas_args ticking 2 N_MC Dim wide_objects 1] \<rparr>"]
    region_wide
  by (simp add: wide_objects_def Dim_def)

text \<open>
  The claim as stated fails at \<open>dim = 3\<close> with bound arrays of four components: the
  call returns a pair.
\<close>

theorem dimension_mismatch_counterexample:
  "length (xl wide_objects) = 4 \<and> length (xu wide_objects) = 4 \<and> unat Dim = 3
   \<and> parallel_monte_carlo_integration ticking refusing 2 1 N_MC Dim Res Err wide_objects
     = Inr (wide_objects\<lparr>result := 3 / 10, error := sqrt 2 / 2\<rparr>)"
  using integration_returns [OF region_wide]
  by (simp add: wide_objects_def Dim_def)

section \<open>What a call writes\<close>

text \<open>
  C7 (as amended). A call that returns leaves the bound arrays \<open>xl\<close> and \<open>xu\<close> and the
  parameter record \<open>par\<close> (its fields \<open>p\<close> and \<open>q\<close>) as they were, provided that
  \<^verbatim>\<open>result\<close> and \<^verbatim>\<open>error\<close> are bound to doubles outside them and that the library's
  sampler does not write through the pointers to them that it is given. The call itself
  writes through \<^verbatim>\<open>result\<close> and \<^verbatim>\<open>error\<close> only.
\<close>

theorem inputs_unchanged:
  assumes "leaves_inputs vegas"
    and "result_ref = Res \<or> result_ref = Err"
    and "error_ref = Res \<or> error_ref = Err"
    and "parallel_monte_carlo_integration now vegas num_threads helpers calls d
           result_ref error_ref st = Inr st'"
  shows "xl st' = xl st \<and> xu st' = xu st \<and> par st' = par st"
proof -
  from assms(4) obtain rg st1 where
    rg: "run_region now vegas num_threads helpers calls d st = Inr rg"
    and w1: "assign result_ref (accumulate (results rg) 0 / real (unat num_threads)) (objects rg)
             = Inr st1"
    and w2: "assign error_ref (sqrt (sum_sq_errors (errors rg)) / real (unat num_threads)) st1
             = Inr st'"
    by (auto simp: parallel_monte_carlo_integration_def split: sum.splits)
  have "objects rg = st" using assms(1) rg by (rule run_region_objects)
  with w1 assms(2) have "xl st1 = xl st \<and> xu st1 = xu st \<and> par st1 = par st"
    by (auto simp: assign_def)
  with w2 assms(3) show ?thesis
    by (auto simp: assign_def)
qed

theorem inputs_unchanged_witness:
  "leaves_inputs refusing
   \<and> parallel_monte_carlo_integration ticking refusing 2 1 N_MC Dim Res Err main_objects
     = Inr (main_objects\<lparr>result := 3 / 10, error := sqrt 2 / 2\<rparr>)
   \<and> xl (main_objects\<lparr>result := 3 / 10, error := sqrt 2 / 2\<rparr>) = xl main_objects
   \<and> xu (main_objects\<lparr>result := 3 / 10, error := sqrt 2 / 2\<rparr>) = xu main_objects
   \<and> par (main_objects\<lparr>result := 3 / 10, error := sqrt 2 / 2\<rparr>) = par main_objects"
  using inputs_unchanged [OF refusing_leaves_inputs _ _ main_full] refusing_leaves_inputs main_full
  by simp

text \<open>
  The claim as stated fails at the call of \<^verbatim>\<open>main\<close> with \<^verbatim>\<open>result\<close> bound to
  \<^verbatim>\<open>xl[0]\<close>: the call writes the combined mean into the lower bound of the first
  dimension.
\<close>

theorem result_bound_to_xl_counterexample:
  "xl main_objects = [0, 0, 0]
   \<and> parallel_monte_carlo_integration ticking refusing 2 1 N_MC Dim (Xl 0) Err main_objects
     = Inr (main_objects\<lparr>xl := [3 / 10, 0, 0], error := sqrt 2 / 2\<rparr>)"
  using region_main_full
  by (simp add: parallel_monte_carlo_integration_def assign_def accumulate_def sum_sq_errors_def
      main_objects_def Lower_bounds_def)

section \<open>Seeds of distinct workers\<close>

lemma xor_cancel: "(a :: ulong) XOR b = a XOR c \<Longrightarrow> b = c"
  by (metis bit.xor_left_self xor.left_neutral xor.assoc)

text \<open>
  Two threads that read the same clock value get different seeds (thread numbers are
  non-negative \<^verbatim>\<open>int\<close>s).
\<close>

lemma same_instant_seeds_differ:
  assumes "0 \<le> i" "i < 2 ^ 64" "0 \<le> j" "j < 2 ^ 64" "seed now i = seed now j"
  shows "i = j"
proof -
  from assms(5) have "(of_int i :: ulong) + 0x9e3779b97f4a7c15 = of_int j + 0x9e3779b97f4a7c15"
    unfolding seed_def by (rule xor_cancel)
  then have "(of_int i :: ulong) = of_int j" by simp
  with assms(1-4) show ?thesis by (simp add: word_of_int_inj)
qed

text \<open>
  Readings that differ can undo the difference of the thread numbers: for the constant
  \<open>c\<close> of the source \<open>(c + 0) XOR (c + 1) = 3\<close>, so whatever thread 0 reads, thread 1
  gets the same seed when its reading differs from it in the two low bits.
\<close>

lemma reading_xor_3_collides: "seed now 0 = seed (now XOR 3) 1"
  by (simp add: seed_def xor.assoc)

text \<open>
  C3. The claim is that the seeds of two distinct workers differ also when their clock
  readings differ. They need not: thread 0 reading 1700000000000000000 and thread 1
  reading 1700000000000000003 seed their generators alike, and the two sampler calls get
  the same arguments.
\<close>

theorem seeds_collide_three_ticks_apart:
  "(0 :: int) \<noteq> 1 \<and> skewed 0 = 1700000000000000000 \<and> skewed 1 = 1700000000000000003
   \<and> seed (skewed 0) 0 = seed (skewed 1) 1
   \<and> vegas_args skewed 2 N_MC Dim main_objects 0 = vegas_args skewed 2 N_MC Dim main_objects 1"
  by (simp add: skewed_def seed_def vegas_args_def)

section \<open>The value main prints as expected\<close>

lemma sum_half: "(\<Sum>i<n. real i + 1 / 2) = (real n)\<^sup>2 / 2"
  by (induction n) (simp_all add: power2_eq_square algebra_simps)

lemma sum_half_sq: "(\<Sum>i<n. (real i + 1 / 2)\<^sup>2) = real n ^ 3 / 3 - real n / 12"
proof (induction n)
  case 0
  show ?case by simp
next
  case (Suc n)
  have "(\<Sum>i<Suc n. (real i + 1 / 2)\<^sup>2) = real n ^ 3 / 3 - real n / 12 + (real n + 1 / 2)\<^sup>2"
    using Suc.IH by simp
  also have "\<dots> = real (Suc n) ^ 3 / 3 - real (Suc n) / 12"
    by (simp add: power2_eq_square power3_eq_cube field_simps)
  finally show ?case .
qed

lemma sum_midpoint:
  assumes "0 < n"
  shows "(\<Sum>i<n. midpoint n i) = real n / 2"
proof -
  have "(\<Sum>i<n. midpoint n i) = (\<Sum>i<n. real i + 1 / 2) / real n"
    by (simp add: midpoint_def sum_divide_distrib)
  with assms show ?thesis by (simp add: sum_half power2_eq_square)
qed

lemma sum_midpoint_sq:
  assumes "0 < n"
  shows "(\<Sum>i<n. midpoint n i * midpoint n i) = real n / 3 - 1 / (12 * real n)"
proof -
  have "(\<Sum>i<n. midpoint n i * midpoint n i) = (\<Sum>i<n. (real i + 1 / 2)\<^sup>2) / (real n)\<^sup>2"
    by (simp add: midpoint_def sum_divide_distrib power2_eq_square)
  also have "\<dots> = (real n ^ 3 / 3 - real n / 12) / (real n)\<^sup>2"
    by (simp only: sum_half_sq)
  also have "\<dots> = real n / 3 - 1 / (12 * real n)"
    using assms by (simp add: power2_eq_square power3_eq_cube field_simps)
  finally show ?thesis .
qed

lemma triple_sum:
  "(\<Sum>i<n. \<Sum>j<n. \<Sum>k<n. f (a i) (a j) (a k) params)
   = 3 * (real n)\<^sup>2 * ((\<Sum>i<n. a i) * p params + (\<Sum>i<n. a i * a i) * q params)"
  by (simp add: f_def sum.distrib sum_distrib_left sum_distrib_right power2_eq_square algebra_simps
      flip: sum_distrib_left sum_distrib_right)

text \<open>
  The midpoint sum over \<open>n\<^sup>3\<close> cells is \<open>3p/2 + q\<close> less \<open>q / (4 n\<^sup>2)\<close>: the integral of
  \<open>f\<close> over the unit cube is \<open>3p/2 + q\<close>.
\<close>

lemma midpoint_sum_value:
  assumes "0 < n"
  shows "midpoint_sum n params = 3 / 2 * p params + (1 - 1 / (4 * (real n)\<^sup>2)) * q params"
proof -
  have "midpoint_sum n params
      = 3 * (real n)\<^sup>2 * (real n / 2 * p params + (real n / 3 - 1 / (12 * real n)) * q params)
        / real n ^ 3"
    using assms by (simp only: midpoint_sum_def triple_sum sum_midpoint sum_midpoint_sq)
  also have "\<dots> = 3 / 2 * p params + (1 - 1 / (4 * (real n)\<^sup>2)) * q params"
    using assms by (simp add: power2_eq_square power3_eq_cube field_simps)
  finally show ?thesis .
qed

text \<open>
  With the parameters of \<^verbatim>\<open>main\<close>, \<open>p = q = 0.1\<close>, the midpoint sums tend to the
  \<^verbatim>\<open>1/4\<close> that \<^verbatim>\<open>main\<close> prints as the expected result.
\<close>

lemma midpoint_sum_main:
  "0 < n \<Longrightarrow> midpoint_sum n (par main_objects) = 1 / 4 - 1 / (40 * (real n)\<^sup>2)"
  by (simp add: midpoint_sum_value main_objects_def field_simps)

lemma midpoint_sum_limit: "(\<lambda>n. midpoint_sum n (par main_objects)) \<longlonglongrightarrow> 1 / 4"
proof -
  have "(\<lambda>n. 1 / 4 - 1 / 40 * (inverse (real n) * inverse (real n)))
        \<longlonglongrightarrow> 1 / 4 - 1 / 40 * (0 * 0)"
    by (intro tendsto_intros lim_inverse_n)
  then have lim: "(\<lambda>n. 1 / 4 - 1 / (40 * (real n)\<^sup>2)) \<longlonglongrightarrow> 1 / 4"
    by (simp add: power2_eq_square field_simps)
  have "\<forall>\<^sub>F n in sequentially.
          1 / 4 - 1 / (40 * (real n)\<^sup>2) = midpoint_sum n (par main_objects)"
    using eventually_gt_at_top [of 0] by eventually_elim (simp add: midpoint_sum_main)
  with lim show ?thesis by (rule Lim_transform_eventually)
qed

section \<open>The integrand reads three components\<close>

lemma integrand_Some:
  "3 \<le> length k \<Longrightarrow> integrand k d params = Some (f (k ! 0) (k ! 1) (k ! 2) params)"
  by (auto simp: integrand_def rd_def)

lemma integrand_None: "length k < 3 \<Longrightarrow> integrand k d params = None"
  by (auto simp: integrand_def rd_def split: option.splits)

text \<open>
  C10. The wrapper reads exactly \<open>k[0]\<close>, \<open>k[1]\<close>, \<open>k[2]\<close> and ignores \<open>dim\<close>: it is
  defined (every read inside the array) exactly when the point has at least three
  components, its value does not depend on \<open>dim\<close>, and two points that agree on their
  first three components give the same value, whatever comes after them.
\<close>

theorem integrand_reads_first_three:
  "(integrand k d params \<noteq> None \<longleftrightarrow> 3 \<le> length k)
   \<and> integrand k d params = integrand k d' params
   \<and> (take 3 k = take 3 k' \<longrightarrow> integrand k d params = integrand k' d' params)"
proof (intro conjI impI)
  show "integrand k d params \<noteq> None \<longleftrightarrow> 3 \<le> length k"
    using integrand_Some [of k d params] integrand_None [of k d params]
    by (cases "3 \<le> length k") auto
  show "integrand k d params = integrand k d' params"
    by (simp add: integrand_def)
next
  assume eq: "take 3 k = take 3 k'"
  show "integrand k d params = integrand k' d' params"
  proof (cases "3 \<le> length k")
    case True
    with eq have len: "3 \<le> length k'"
      by (metis length_take min.absorb2 min.cobounded1)
    have "k ! i = k' ! i" if "i < 3" for i
      using that eq by (metis nth_take)
    then show ?thesis
      using True len by (simp add: integrand_Some)
  next
    case False
    then have "length k < 3" by simp
    moreover from this eq have "length k' < 3"
      by (metis length_take min.absorb2 min_def not_le_imp_less not_less_iff_gr_or_eq)
    ultimately show ?thesis by (simp add: integrand_None)
  qed
qed

theorem integrand_reads_first_three_witness:
  "(integrand [1, 2, 3, 40] 4 \<lparr>p = 1, q = 1\<rparr> \<noteq> None \<longleftrightarrow> 3 \<le> length [1, 2, 3, 40 :: real])
   \<and> integrand [1, 2, 3, 40] 4 \<lparr>p = 1, q = 1\<rparr> = integrand [1, 2, 3, 40] 7 \<lparr>p = 1, q = 1\<rparr>
   \<and> take 3 [1, 2, 3, 40 :: real] = take 3 [1, 2, 3, 50, 60]
   \<and> integrand [1, 2, 3, 40] 4 \<lparr>p = 1, q = 1\<rparr> = integrand [1, 2, 3, 50, 60] 7 \<lparr>p = 1, q = 1\<rparr>
   \<and> integrand [1, 2, 3, 40] 4 \<lparr>p = 1, q = 1\<rparr> = Some 20
   \<and> integrand [1, 2] 4 \<lparr>p = 1, q = 1\<rparr> = None"
  using integrand_reads_first_three [of "[1, 2, 3, 40]" 4 "\<lparr>p = 1, q = 1\<rparr>" 7 "[1, 2, 3, 50, 60]"]
  by (simp add: integrand_def rd_def f_def)

end
